theory Spec2Isabelle
  imports Complex_Main "HOL-Library.Sublist" "HOL-Library.Word"
begin

section \<open>Python string and path primitives used by the script\<close>

text \<open>
  \<^verbatim>\<open>s.replace(old, new)\<close>: scanning from the left, every non-overlapping occurrence
  of \<open>old\<close> is replaced by \<open>new\<close>. For the empty pattern Python inserts \<open>new\<close> before
  every character and at the end.
\<close>

function py_replace :: "string \<Rightarrow> string \<Rightarrow> string \<Rightarrow> string" where
  "py_replace old new [] = (if old = [] then new else [])"
| "py_replace old new (c # cs) =
     (if old = [] then new @ c # py_replace old new cs
      else if prefix old (c # cs) then new @ py_replace old new (drop (length old) (c # cs))
      else c # py_replace old new cs)"
  by pat_completeness auto
termination
  by (relation "measure (\<lambda>(old, new, s). length s)") auto

text \<open>\<^verbatim>\<open>sub in s\<close> on strings: \<open>sub\<close> occurs as a contiguous substring of \<open>s\<close>.\<close>

fun py_in :: "string \<Rightarrow> string \<Rightarrow> bool" where
  "py_in sub [] = (sub = [])"
| "py_in sub (c # cs) = (prefix sub (c # cs) \<or> py_in sub cs)"

text \<open>\<^verbatim>\<open>os.path.join(a, b)\<close> (POSIX, two arguments).\<close>

definition os_path_join :: "string \<Rightarrow> string \<Rightarrow> string" where
  "os_path_join a b =
     (if b \<noteq> [] \<and> hd b = CHR ''/'' then b
      else if a = [] \<or> last a = CHR ''/'' then a @ b
      else a @ ''/'' @ b)"

text \<open>\<^verbatim>\<open>os.path.basename(p)\<close> (POSIX): everything after the last slash.\<close>

definition os_path_basename :: "string \<Rightarrow> string" where
  "os_path_basename p = rev (takeWhile (\<lambda>c. c \<noteq> CHR ''/'') (rev p))"

section \<open>Tables\<close>

text \<open>
  A pandas data frame is modelled as the list of its rows, in row order; the frame is
  \<^verbatim>\<open>.empty\<close> exactly when the list is empty. The row labels are the default
  \<^verbatim>\<open>RangeIndex\<close>, hence unique, so \<^verbatim>\<open>drop(index[k])\<close> removes exactly the
  row at position \<open>k\<close>. Floating-point columns are read as reals; the only operation
  the script applies to them is the comparison with the sentinel \<open>-777.0\<close>.
  The filter-band column is called \<open>FLT\<close> or \<open>BAND\<close> depending on the SNANA version;
  the script picks whichever is present, and the row model keeps it under \<open>FLT\<close>.
\<close>

datatype error =
  IndexError | FileNotFoundError | AttributeError | KeyError | OSError | IsADirectoryError

record phot_row =
  MJD :: real
  FLT :: string
  FLUXCAL :: real
  FLUXCALERR :: real

record head_row =
  SNID :: int
  SNTYPE :: int
  PEAKMJD :: real
  REDSHIFT_FINAL :: real
  REDSHIFT_FINAL_ERR :: real
  MWEBV :: real

text \<open>
  A cell of the \<open>passband\<close> column: the raw byte string read from the file, or the
  integer code that \<^verbatim>\<open>replace\<close> puts in its place.
\<close>

datatype band_cell = Raw string | Code int

record phot_out =
  object_id :: "32 word"
  mjd :: real
  passband :: band_cell
  flux :: real
  flux_err :: real

text \<open>The header's \<open>object_id\<close> column is the field \<open>hdr_object_id\<close>.\<close>

record head_out =
  hdr_object_id :: "32 word"
  true_target :: int
  true_peakmjd :: real
  true_z :: real
  true_z_err :: real
  mwebv :: real

section \<open>read\_fits: sentinel trimming\<close>

definition sentinel :: real where
  "sentinel = - 777"

text \<open>
  Lines 31--34: \<^verbatim>\<open>values[-1]\<close> and \<^verbatim>\<open>values[0]\<close> raise \<open>IndexError\<close> on an
  empty array. The second test reads the frame left by the first.
\<close>

definition trim_sentinels :: "phot_row list \<Rightarrow> error + phot_row list" where
  "trim_sentinels df_phot =
     (if df_phot = [] then Inl IndexError
      else
        let df1 = (if MJD (last df_phot) = sentinel then butlast df_phot else df_phot)
        in if df1 = [] then Inl IndexError
           else Inr (if MJD (hd df1) = sentinel then tl df1 else df1))"

section \<open>read\_fits: assigning SNID to photometry rows\<close>

text \<open>\<^verbatim>\<open>np.where(mjd == -777.0)[0]\<close>: the positions of the sentinel rows, ascending.\<close>

definition np_where_sentinel :: "real list \<Rightarrow> nat list" where
  "np_where_sentinel mjds = filter (\<lambda>i. mjds ! i = sentinel) [0..<length mjds]"

text \<open>\<^verbatim>\<open>arr[start:end] = v\<close> for non-negative bounds: numpy clips both to the length.\<close>

definition slice_assign :: "'a list \<Rightarrow> nat \<Rightarrow> nat \<Rightarrow> 'a \<Rightarrow> 'a list" where
  "slice_assign arr start end v =
     (let s = min start (length arr); e = min end (length arr)
      in if s < e then take s arr @ replicate (e - s) v @ drop e arr else arr)"

text \<open>\<^verbatim>\<open>series.iloc[i]\<close> for a non-negative position.\<close>

definition iloc :: "'a list \<Rightarrow> nat \<Rightarrow> error + 'a" where
  "iloc xs i = (if i < length xs then Inr (xs ! i) else Inl IndexError)"

text \<open>
  The loop of lines 47--50 over the remaining values of \<open>counter\<close>. The header key is
  looked up before the slice is written, also when the slice is empty.
\<close>

fun fill_arr_ID :: "nat list \<Rightarrow> 'a list \<Rightarrow> nat list \<Rightarrow> 'a list \<Rightarrow> error + 'a list" where
  "fill_arr_ID arr_idx snid [] arr_ID = Inr arr_ID"
| "fill_arr_ID arr_idx snid (counter # rest) arr_ID =
     (case iloc snid (counter - 1) of
        Inl e \<Rightarrow> Inl e
      | Inr v \<Rightarrow>
          fill_arr_ID arr_idx snid rest
            (slice_assign arr_ID (arr_idx ! (counter - 1)) (arr_idx ! counter) v))"

definition assign_ids :: "real list \<Rightarrow> 32 word list \<Rightarrow> error + 32 word list" where
  "assign_ids mjds snid =
     (let arr_ID = replicate (length mjds) 0;
          arr_idx = [0] @ np_where_sentinel mjds @ [length mjds]
      in fill_arr_ID arr_idx snid [1..<length arr_idx] arr_ID)"

section \<open>read\_fits: normalisation\<close>

text \<open>\<^verbatim>\<open>astype(np.int32)\<close> on integers keeps the low 32 bits.\<close>

definition astype_int32 :: "int \<Rightarrow> 32 word" where
  "astype_int32 n = word_of_int n"

definition sntype_dict :: "(int \<times> int) list" where
  "sntype_dict =
     [(120, 42), (20, 42), (121, 42), (21, 42), (122, 42), (22, 42),
      (130, 62), (30, 62), (131, 62), (31, 62), (101, 90), (1, 90),
      (102, 52), (2, 52), (104, 64), (4, 64), (103, 95), (3, 95),
      (191, 67), (91, 67)]"

definition passband_dict :: "(string \<times> int) list" where
  "passband_dict =
     [(''u '', 0), (''g '', 1), (''r '', 2), (''i '', 3), (''z '', 4), (''Y '', 5)]"

definition replace_true_target :: "int \<Rightarrow> int" where
  "replace_true_target v = (case map_of sntype_dict v of Some t \<Rightarrow> t | None \<Rightarrow> v)"

definition isin_passband :: "band_cell \<Rightarrow> bool" where
  "isin_passband c = (case c of Raw b \<Rightarrow> b \<in> set (map fst passband_dict) | Code v \<Rightarrow> False)"

definition replace_passband :: "band_cell \<Rightarrow> band_cell" where
  "replace_passband c =
     (case c of
        Raw b \<Rightarrow> (case map_of passband_dict b of Some v \<Rightarrow> Code v | None \<Rightarrow> Raw b)
      | Code v \<Rightarrow> Code v)"

text \<open>Lines 57, 59--61: column selection, renaming and class remapping of the header.\<close>

definition normalise_header :: "head_row list \<Rightarrow> head_out list" where
  "normalise_header df_header =
     map (\<lambda>h. \<lparr>hdr_object_id = astype_int32 (SNID h),
               true_target = replace_true_target (SNTYPE h),
               true_peakmjd = PEAKMJD h, true_z = REDSHIFT_FINAL h,
               true_z_err = REDSHIFT_FINAL_ERR h, mwebv = MWEBV h\<rparr>) df_header"

text \<open>
  Lines 51--66 on the photometry frame: the \<open>SNID\<close> column is attached, separators
  are dropped when asked for, columns are selected and renamed, rows whose band is not
  a key of the passband dictionary are filtered out, and the band is replaced by its code.
\<close>

definition normalise_phot :: "bool \<Rightarrow> 32 word list \<Rightarrow> phot_row list \<Rightarrow> phot_out list" where
  "normalise_phot drop_separators arr_ID df_phot =
     (let with_id = zip arr_ID df_phot;
          kept = (if drop_separators then filter (\<lambda>(i, r). MJD r \<noteq> sentinel) with_id
                  else with_id);
          renamed = map (\<lambda>(i, r). \<lparr>object_id = i, mjd = MJD r, passband = Raw (FLT r),
                                    flux = FLUXCAL r, flux_err = FLUXCALERR r\<rparr>) kept;
          known = filter (\<lambda>r. isin_passband (passband r)) renamed
      in map (\<lambda>r. r\<lparr>passband := replace_passband (passband r)\<rparr>) known)"

section \<open>Files\<close>

text \<open>
  The file system maps a path to what is stored there. \<open>reads\<close> logs every
  \<^verbatim>\<open>Table.read\<close> call. \<open>listing\<close> gives, for a directory, the entry names that
  \<^verbatim>\<open>os.scandir\<close> yields, in the order of the operating system; the script lists
  one directory, once, before it writes anything.
\<close>

datatype content =
  FitsPhot "phot_row list" | FitsHead "head_row list"
  | CsvHead "head_out list" | CsvPhot "phot_out list" | Dir

record world =
  files :: "string \<rightharpoonup> content"
  reads :: "string list"
  listing :: "string \<rightharpoonup> string list"

definition os_path_exists :: "world \<Rightarrow> string \<Rightarrow> bool" where
  "os_path_exists w p = (files w p \<noteq> None)"

text \<open>\<^verbatim>\<open>Table.read(p, format='fits')\<close>: the file must exist and hold a FITS table.\<close>

definition Table_read :: "world \<Rightarrow> string \<Rightarrow> (error + content) \<times> world" where
  "Table_read w p =
     (let w' = w\<lparr>reads := reads w @ [p]\<rparr>
      in case files w p of
           None \<Rightarrow> (Inl FileNotFoundError, w')
         | Some Dir \<Rightarrow> (Inl IsADirectoryError, w')
         | Some (FitsPhot t) \<Rightarrow> (Inr (FitsPhot t), w')
         | Some (FitsHead t) \<Rightarrow> (Inr (FitsHead t), w')
         | Some _ \<Rightarrow> (Inl OSError, w'))"

section \<open>read\_fits\<close>

text \<open>
  Lines 36--68, once the photometry frame is loaded, non-empty and trimmed. A header
  file without the header columns fails at \<^verbatim>\<open>df_header["SNID"]\<close>.
\<close>

definition read_header_and_join ::
  "world \<Rightarrow> string \<Rightarrow> bool \<Rightarrow> phot_row list
     \<Rightarrow> (error + head_out list \<times> phot_out list) \<times> world" where
  "read_header_and_join w fname drop_separators df_phot =
     (case Table_read w (py_replace ''PHOT'' ''HEAD'' fname) of
        (Inl e, w') \<Rightarrow> (Inl e, w')
      | (Inr (FitsHead df_header), w') \<Rightarrow>
          (case assign_ids (map MJD df_phot) (map (\<lambda>h. astype_int32 (SNID h)) df_header) of
             Inl e \<Rightarrow> (Inl e, w')
           | Inr arr_ID \<Rightarrow>
               (Inr (normalise_header df_header,
                     normalise_phot drop_separators arr_ID df_phot), w'))
      | (Inr _, w') \<Rightarrow> (Inl KeyError, w'))"

text \<open>
  \<^verbatim>\<open>read_fits(fname, drop_separators)\<close>. On an empty photometry frame it returns that
  frame twice: two empty tables. A frame without an \<open>MJD\<close> column fails at
  \<^verbatim>\<open>df_phot.MJD\<close> unless it is empty.
\<close>

definition read_fits ::
  "world \<Rightarrow> string \<Rightarrow> bool \<Rightarrow> (error + head_out list \<times> phot_out list) \<times> world" where
  "read_fits w fname drop_separators =
     (case Table_read w fname of
        (Inl e, w') \<Rightarrow> (Inl e, w')
      | (Inr (FitsPhot df_phot), w') \<Rightarrow>
          (if df_phot = [] then (Inr ([], []), w')
           else case trim_sentinels df_phot of
                  Inl e \<Rightarrow> (Inl e, w')
                | Inr df_trimmed \<Rightarrow> read_header_and_join w' fname drop_separators df_trimmed)
      | (Inr (FitsHead df_other), w') \<Rightarrow>
          (if df_other = [] then (Inr ([], []), w') else (Inl AttributeError, w'))
      | (Inr _, w') \<Rightarrow> (Inl OSError, w'))"

section \<open>The driver\<close>

definition csv_metadata_path :: "string \<Rightarrow> string \<Rightarrow> string" where
  "csv_metadata_path output_dir path =
     os_path_join output_dir (py_replace ''PHOT.FITS.gz'' ''HEAD.csv'' (os_path_basename path))"

definition csv_lcdata_path :: "string \<Rightarrow> string \<Rightarrow> string" where
  "csv_lcdata_path output_dir path =
     os_path_join output_dir (py_replace ''.FITS.gz'' ''.csv'' (os_path_basename path))"

text \<open>
  The directory that must hold the file \<open>p\<close>: the part of \<open>p\<close> before its base name,
  without the slashes that end it. The empty result stands for the current directory.
\<close>

definition path_parent :: "string \<Rightarrow> string" where
  "path_parent p =
     (let head = take (length p - length (os_path_basename p)) p;
          d = rev (dropWhile (\<lambda>c. c = CHR ''/'') (rev head))
      in if d = [] \<and> head \<noteq> [] then ''/'' else d)"

text \<open>
  The current directory and the root always exist. Paths are compared as strings, and the
  driver records the output directory in the spelling it was given, so a directory is
  looked up with and without a final slash.
\<close>

definition is_dir :: "world \<Rightarrow> string \<Rightarrow> bool" where
  "is_dir w d =
     (d = [] \<or> d = ''/'' \<or> files w d = Some Dir \<or> files w (d @ ''/'') = Some Dir)"

text \<open>
  \<^verbatim>\<open>df.to_csv(p)\<close>: creates or overwrites the file at \<open>p\<close>. It raises an
  \<open>OSError\<close> when the parent of \<open>p\<close> is missing or is not a directory, and it cannot
  write over a directory.
\<close>

definition to_csv :: "world \<Rightarrow> string \<Rightarrow> content \<Rightarrow> (error + unit) \<times> world" where
  "to_csv w p f =
     (if is_dir w (path_parent p) then
        if files w p = Some Dir then (Inl IsADirectoryError, w)
        else (Inr (), w\<lparr>files := (files w)(p \<mapsto> f)\<rparr>)
      else (Inl OSError, w))"

text \<open>The body of the loop of lines 96--107, for one path; the reader's default flag is off.\<close>

definition driver_body :: "string \<Rightarrow> string \<Rightarrow> world \<Rightarrow> (error + unit) \<times> world" where
  "driver_body output_dir path w =
     (if os_path_exists w (csv_metadata_path output_dir path) then (Inr (), w)
      else case read_fits w path False of
             (Inl e, w') \<Rightarrow> (Inl e, w')
           | (Inr (metadata, lcdata), w') \<Rightarrow>
               if metadata = [] then (Inr (), w')
               else case to_csv w' (csv_metadata_path output_dir path) (CsvHead metadata) of
                      (Inl e, w'') \<Rightarrow> (Inl e, w'')
                    | (Inr u, w'') \<Rightarrow>
                        to_csv w'' (csv_lcdata_path output_dir path) (CsvPhot lcdata))"

fun driver_loop :: "string \<Rightarrow> string list \<Rightarrow> world \<Rightarrow> (error + unit) \<times> world" where
  "driver_loop output_dir [] w = (Inr (), w)"
| "driver_loop output_dir (path # paths) w =
     (case driver_body output_dir path w of
        (Inl e, w') \<Rightarrow> (Inl e, w')
      | (Inr u, w') \<Rightarrow> driver_loop output_dir paths w')"

text \<open>
  Lines 92--107. \<^verbatim>\<open>os.makedirs\<close> is called only when the output directory does not
  exist, and fails on the empty path.
\<close>

definition driver :: "string \<Rightarrow> string \<Rightarrow> world \<Rightarrow> (error + unit) \<times> world" where
  "driver fits_dir output_dir w =
     (case listing w fits_dir of
        None \<Rightarrow> (Inl FileNotFoundError, w)
      | Some names \<Rightarrow>
          let fits_paths = map (os_path_join fits_dir) (filter (py_in ''PHOT.FITS'') names)
          in if os_path_exists w output_dir then driver_loop output_dir fits_paths w
             else if output_dir = [] then (Inl FileNotFoundError, w)
             else driver_loop output_dir fits_paths
                    (w\<lparr>files := (files w)(output_dir \<mapsto> Dir)\<rparr>))"

section \<open>Reference functions for the segmentation\<close>

text \<open>
  These three functions are not in the script. They say, without loops or index
  arrays, what the loop of lines 42--51 is shown to compute: a row receives the header
  key whose position is the number of sentinel rows up to and including that row.
\<close>

definition count_sentinels :: "real list \<Rightarrow> nat" where
  "count_sentinels mjds = length (filter (\<lambda>t. t = sentinel) mjds)"

definition block_ids :: "real list \<Rightarrow> 'a list \<Rightarrow> 'a list" where
  "block_ids mjds snid =
     map (\<lambda>i. snid ! count_sentinels (take (Suc i) mjds)) [0..<length mjds]"

definition boundaries_upto :: "nat list \<Rightarrow> nat \<Rightarrow> nat" where
  "boundaries_upto idx i = length (filter (\<lambda>j. j \<le> i) idx)"

section \<open>Sample inputs\<close>

definition mk_phot :: "real \<Rightarrow> string \<Rightarrow> phot_row" where
  "mk_phot t b = \<lparr>MJD = t, FLT = b, FLUXCAL = 1, FLUXCALERR = 1\<rparr>"

definition mk_head :: "int \<Rightarrow> head_row" where
  "mk_head k = \<lparr>SNID = k, SNTYPE = 120, PEAKMJD = 0, REDSHIFT_FINAL = 0,
                 REDSHIFT_FINAL_ERR = 0, MWEBV = 0\<rparr>"

definition mk_out :: "32 word \<Rightarrow> real \<Rightarrow> int \<Rightarrow> phot_out" where
  "mk_out k t c = \<lparr>object_id = k, mjd = t, passband = Code c, flux = 1, flux_err = 1\<rparr>"

text \<open>A directory \<open>in\<close> holding one batch \<open>b\<close>; nothing has been written yet.\<close>

definition sample_world :: "phot_row list \<Rightarrow> head_row list \<Rightarrow> world" where
  "sample_world phot hdr =
     \<lparr>files = [''in/b_PHOT.FITS.gz'' \<mapsto> FitsPhot phot, ''in/b_HEAD.FITS.gz'' \<mapsto> FitsHead hdr],
      reads = [],
      listing = [''in'' \<mapsto> [''b_PHOT.FITS.gz'', ''b_HEAD.FITS.gz'']]\<rparr>"

text \<open>The same batch after a run that wrote its header CSV into \<open>out\<close>.\<close>

definition converted_world :: world where
  "converted_world =
     \<lparr>files = [''in/b_PHOT.FITS.gz'' \<mapsto> FitsPhot [mk_phot 1 ''u ''],
               ''in/b_HEAD.FITS.gz'' \<mapsto> FitsHead [mk_head 10],
               ''out'' \<mapsto> Dir,
               ''out/b_HEAD.csv'' \<mapsto> CsvHead (normalise_header [mk_head 10])],
      reads = [],
      listing = [''in'' \<mapsto> [''b_PHOT.FITS.gz'', ''b_HEAD.FITS.gz'']]\<rparr>"

text \<open>An uncompressed batch \<open>b\<close> in \<open>in\<close>, and an empty output directory \<open>out\<close>.\<close>

definition uncompressed_world :: world where
  "uncompressed_world =
     \<lparr>files = [''in/b_PHOT.FITS'' \<mapsto> FitsPhot [mk_phot 1 ''u ''],
               ''in/b_HEAD.FITS'' \<mapsto> FitsHead [mk_head 10],
               ''out'' \<mapsto> Dir],
      reads = [],
      listing = [''in'' \<mapsto> [''b_PHOT.FITS'', ''b_HEAD.FITS'']]\<rparr>"

text \<open>A batch stored under a directory whose own name contains \<open>PHOT\<close>.\<close>

definition phot_dir_world :: world where
  "phot_dir_world =
     \<lparr>files = [''PHOT_sims/b_PHOT.FITS.gz'' \<mapsto> FitsPhot [mk_phot 1 ''u '']],
      reads = [],
      listing = Map.empty\<rparr>"

section \<open>Strings: occurrences and replacement\<close>

lemma py_in_iff: "py_in sub s \<longleftrightarrow> (\<exists>ps ss. s = ps @ sub @ ss)"
proof (induction s)
  case Nil
  then show ?case by auto
next
  case (Cons c cs)
  show ?case
  proof
    assume "py_in sub (c # cs)"
    then consider "prefix sub (c # cs)" | "py_in sub cs" by auto
    then show "\<exists>ps ss. c # cs = ps @ sub @ ss"
    proof cases
      case 1
      then obtain ss where "c # cs = sub @ ss" by (auto simp: prefix_def)
      then have "c # cs = [] @ sub @ ss" by simp
      then show ?thesis by blast
    next
      case 2
      with Cons obtain ps ss where "cs = ps @ sub @ ss" by auto
      then have "c # cs = (c # ps) @ sub @ ss" by simp
      then show ?thesis by blast
    qed
  next
    assume "\<exists>ps ss. c # cs = ps @ sub @ ss"
    then obtain ps ss where eq: "c # cs = ps @ sub @ ss" by auto
    show "py_in sub (c # cs)"
    proof (cases ps)
      case Nil
      with eq have "prefix sub (c # cs)" by (simp add: prefix_def)
      then show ?thesis by simp
    next
      case (Cons p ps')
      with eq have "cs = ps' @ sub @ ss" by simp
      with Cons.IH show ?thesis by auto
    qed
  qed
qed

lemma py_in_suffix_pattern: "py_in (p @ q) s \<Longrightarrow> py_in q s"
  unfolding py_in_iff by (metis append.assoc)

text \<open>An occurrence cannot run across a character that the pattern does not contain.\<close>

lemma prefix_across:
  assumes "c \<notin> set old" and "prefix old (b @ c # rest)"
  shows "prefix old b"
proof -
  from assms(2) consider "prefix old b" | us where "old = b @ us" "prefix us (c # rest)"
    by (auto simp: prefix_append)
  then show ?thesis
  proof cases
    case 1 then show ?thesis .
  next
    case 2
    with assms(1) have "us = []" by (cases us) auto
    with 2 show ?thesis by simp
  qed
qed

lemma py_replace_split:
  assumes "old \<noteq> []" and "c \<notin> set old"
  shows "py_replace old new (b @ c # rest) = py_replace old new b @ c # py_replace old new rest"
  using assms
proof (induction old new b rule: py_replace.induct)
  case (1 old new)
  then have "\<not> prefix old (c # rest)" by (cases old) auto
  with 1 show ?case by simp
next
  case (2 old new x xs)
  show ?case
  proof (cases "prefix old (x # xs)")
    case True
    then have len: "length old \<le> length (x # xs)" by (rule prefix_length_le)
    from True have "prefix old ((x # xs) @ c # rest)" by (rule prefix_prefix)
    moreover have "drop (length old) ((x # xs) @ c # rest) = drop (length old) (x # xs) @ c # rest"
      using len drop_append [of "length old" "x # xs" "c # rest"] by simp
    ultimately show ?thesis using True 2 by simp
  next
    case False
    with prefix_across [OF "2.prems"(2), of "x # xs" rest]
    have "\<not> prefix old ((x # xs) @ c # rest)" by blast
    with False 2 show ?thesis by simp
  qed
qed

lemma py_replace_absent: "old \<noteq> [] \<Longrightarrow> \<not> py_in old s \<Longrightarrow> py_replace old new s = s"
  by (induction s) auto

lemma py_replace_first:
  assumes "py_replace ''PHOT'' ''HEAD'' s = x # r" and "x \<noteq> CHR ''H''"
  shows "\<exists>s'. s = x # s' \<and> r = py_replace ''PHOT'' ''HEAD'' s'"
  using assms by (cases s) (auto split: if_splits)

lemma py_replace_HOT:
  assumes "prefix ''HOT'' (py_replace ''PHOT'' ''HEAD'' s)"
  shows "prefix ''HOT'' s"
proof -
  from assms obtain r where
    r: "py_replace ''PHOT'' ''HEAD'' s = CHR ''H'' # CHR ''O'' # CHR ''T'' # r"
    by (auto simp: prefix_def)
  then obtain s1 where
    s1: "s = CHR ''H'' # s1" "py_replace ''PHOT'' ''HEAD'' s1 = CHR ''O'' # CHR ''T'' # r"
    by (cases s) (auto split: if_splits)
  from py_replace_first [OF s1(2)] obtain s2 where
    s2: "s1 = CHR ''O'' # s2" "py_replace ''PHOT'' ''HEAD'' s2 = CHR ''T'' # r" by auto
  from py_replace_first [OF s2(2)] obtain s3 where "s2 = CHR ''T'' # s3" by auto
  with s1 s2 show ?thesis by simp
qed

text \<open>No occurrence of \<open>PHOT\<close> survives, and the inserted \<open>HEAD\<close> creates none.\<close>

lemma py_replace_PHOT_gone: "\<not> py_in ''PHOT'' (py_replace ''PHOT'' ''HEAD'' s)"
proof (induction s rule: length_induct)
  case (1 s)
  show ?case
  proof (cases s)
    case Nil
    then show ?thesis by simp
  next
    case (Cons c cs)
    show ?thesis
    proof (cases "prefix ''PHOT'' (c # cs)")
      case True
      define r where "r = py_replace ''PHOT'' ''HEAD'' (drop (length ''PHOT'') (c # cs))"
      have "length (drop (length ''PHOT'') (c # cs)) < length s" using Cons by simp
      with 1 have IH: "\<not> py_in ''PHOT'' r" unfolding r_def by blast
      have eq: "py_replace ''PHOT'' ''HEAD'' (c # cs) = ''HEAD'' @ r"
        using True unfolding r_def by (subst py_replace.simps) simp
      show ?thesis unfolding Cons eq using IH by simp
    next
      case False
      from 1 Cons have IH: "\<not> py_in ''PHOT'' (py_replace ''PHOT'' ''HEAD'' cs)" by simp
      have "\<not> prefix ''PHOT'' (c # py_replace ''PHOT'' ''HEAD'' cs)"
      proof
        assume "prefix ''PHOT'' (c # py_replace ''PHOT'' ''HEAD'' cs)"
        then have "c = CHR ''P''" "prefix ''HOT'' (py_replace ''PHOT'' ''HEAD'' cs)" by auto
        with py_replace_HOT have "prefix ''PHOT'' (c # cs)" by simp
        with False show False ..
      qed
      moreover have eq: "py_replace ''PHOT'' ''HEAD'' (c # cs) = c # py_replace ''PHOT'' ''HEAD'' cs"
        by (subst py_replace.simps) (simp only: False if_False list.distinct)
      moreover have "py_in ''PHOT'' (c # py_replace ''PHOT'' ''HEAD'' cs)
          \<longleftrightarrow> prefix ''PHOT'' (c # py_replace ''PHOT'' ''HEAD'' cs)
               \<or> py_in ''PHOT'' (py_replace ''PHOT'' ''HEAD'' cs)"
        by (rule py_in.simps)
      ultimately show ?thesis unfolding Cons using IH by metis
    qed
  qed
qed

text \<open>\<^verbatim>\<open>os.scandir\<close> names hold no slash, so the base name of an entry's path is its name.\<close>

lemma basename_join:
  assumes "CHR ''/'' \<notin> set name"
  shows "os_path_basename (os_path_join d name) = name"
proof -
  have all: "takeWhile (\<lambda>c. c \<noteq> CHR ''/'') (rev name) = rev name"
    using assms by (auto simp: takeWhile_eq_all_conv)
  have stop: "takeWhile (\<lambda>c. c \<noteq> CHR ''/'') (rev name @ CHR ''/'' # t) = rev name" for t
    using assms by (simp add: takeWhile_tail all)
  have hd: "\<not> (name \<noteq> [] \<and> hd name = CHR ''/'')"
    using assms by (cases name) auto
  show ?thesis
  proof (cases "d = []")
    case True
    with hd show ?thesis by (simp add: os_path_basename_def os_path_join_def all)
  next
    case False
    then obtain d' x where d: "d = d' @ [x]" by (metis rev_exhaust)
    show ?thesis
      using hd d by (auto simp: os_path_basename_def os_path_join_def stop)
  qed
qed

section \<open>The loop that fills the identifier array\<close>

lemma length_slice_assign [simp]: "length (slice_assign arr s e v) = length arr"
  by (auto simp: slice_assign_def Let_def)

lemma nth_slice_assign:
  "s \<le> e \<Longrightarrow> e \<le> length arr \<Longrightarrow> i < length arr \<Longrightarrow>
   slice_assign arr s e v ! i = (if s \<le> i \<and> i < e then v else arr ! i)"
  by (auto simp: slice_assign_def Let_def nth_append min_def)

text \<open>The only error of the loop: a counter beyond the header rows.\<close>

lemma fill_arr_ID_error:
  "\<exists>c\<in>set cs. \<not> c - 1 < length snid \<Longrightarrow> fill_arr_ID arr_idx snid cs arr = Inl IndexError"
  by (induction cs arbitrary: arr) (auto simp: iloc_def)

lemma sorted_np_where: "sorted_wrt (<) (np_where_sentinel mjds)"
  unfolding np_where_sentinel_def by (rule sorted_wrt_filter) (rule sorted_wrt_upt)

lemma np_where_bound: "j \<in> set (np_where_sentinel mjds) \<Longrightarrow> j < length mjds"
  by (auto simp: np_where_sentinel_def)

lemma length_np_where: "length (np_where_sentinel mjds) = count_sentinels mjds"
proof -
  have "filter (\<lambda>t. t = sentinel) mjds = map ((!) mjds) (np_where_sentinel mjds)"
    unfolding np_where_sentinel_def
    by (subst map_nth [symmetric, of mjds], simp only: filter_map comp_def)
  then show ?thesis by (simp add: count_sentinels_def)
qed

lemma boundaries_upto_split:
  assumes "k \<le> length idx"
      and "\<forall>j<k. idx ! j \<le> i"
      and "\<forall>j. k \<le> j \<and> j < length idx \<longrightarrow> i < idx ! j"
  shows "boundaries_upto idx i = k"
proof -
  have lo: "\<forall>x\<in>set (take k idx). x \<le> i"
    using assms(1,2) by (auto simp: in_set_conv_nth)
  have hi: "\<forall>x\<in>set (drop k idx). \<not> x \<le> i"
    using assms(1,3) by (auto simp: in_set_conv_nth not_le)
  have "filter (\<lambda>j. j \<le> i) idx
          = filter (\<lambda>j. j \<le> i) (take k idx) @ filter (\<lambda>j. j \<le> i) (drop k idx)"
    by (metis append_take_drop_id filter_append)
  also have "\<dots> = take k idx"
    using lo hi by (simp add: filter_id_conv filter_empty_conv)
  finally show ?thesis using assms(1) by (simp add: boundaries_upto_def)
qed

lemma strict_sorted_nth_le:
  "sorted_wrt (<) (idx :: nat list) \<Longrightarrow> j \<le> j' \<Longrightarrow> j' < length idx \<Longrightarrow> idx ! j \<le> idx ! j'"
  by (cases "j = j'") (auto simp: sorted_wrt_nth_less less_imp_le)

text \<open>Inside the \<open>k\<close>-th slice exactly \<open>k\<close> sentinel positions lie at or before the row.\<close>

lemma boundaries_upto_between:
  assumes srt: "sorted_wrt (<) idx" and k: "k \<le> length idx"
      and lo: "(0 # idx @ [n]) ! k \<le> i" and hi: "i < (0 # idx @ [n]) ! Suc k"
  shows "boundaries_upto idx i = k"
proof (rule boundaries_upto_split [OF k])
  show "\<forall>j<k. idx ! j \<le> i"
  proof (intro allI impI)
    fix j assume "j < k"
    then obtain k' where k': "k = Suc k'" by (cases k) auto
    with lo k have "idx ! k' \<le> i" by (simp add: nth_append)
    moreover have "idx ! j \<le> idx ! k'"
      using srt \<open>j < k\<close> k k' by (intro strict_sorted_nth_le) auto
    ultimately show "idx ! j \<le> i" by simp
  qed
  show "\<forall>j. k \<le> j \<and> j < length idx \<longrightarrow> i < idx ! j"
  proof (intro allI impI)
    fix j assume j: "k \<le> j \<and> j < length idx"
    with hi have "i < idx ! k" by (simp add: nth_append)
    moreover have "idx ! k \<le> idx ! j"
      using srt j by (intro strict_sorted_nth_le) auto
    ultimately show "i < idx ! j" by simp
  qed
qed

lemma boundaries_mono:
  assumes srt: "sorted_wrt (<) (idx :: nat list)" and bnd: "\<forall>j\<in>set idx. j < n"
      and k: "k \<le> length idx"
  shows "(0 # idx @ [n]) ! k \<le> (0 # idx @ [n]) ! Suc k \<and> (0 # idx @ [n]) ! Suc k \<le> n"
proof -
  have "sorted (0 # idx @ [n])"
    using srt bnd by (auto simp: sorted_append strict_sorted_iff less_imp_le)
  then have "(0 # idx @ [n]) ! k \<le> (0 # idx @ [n]) ! Suc k"
    using k by (intro sorted_nth_mono) auto
  moreover have "(0 # idx @ [n]) ! Suc k \<le> n"
    using bnd k by (cases "k < length idx") (auto simp: nth_append less_imp_le)
  ultimately show ?thesis by simp
qed

text \<open>
  The loop invariant: once the counters up to \<open>k\<close> are done, every row before the
  \<open>k\<close>-th boundary holds its final key. Induction on the number of counters left.
\<close>

lemma fill_arr_ID_inv:
  assumes srt: "sorted_wrt (<) idx" and bnd: "\<forall>j\<in>set idx. j < n"
      and len: "length idx < length snid"
  shows "k \<le> Suc (length idx) \<Longrightarrow> length arr = n \<Longrightarrow>
         (\<forall>i < (0 # idx @ [n]) ! k. arr ! i = snid ! boundaries_upto idx i) \<Longrightarrow>
         fill_arr_ID (0 # idx @ [n]) snid [Suc k..<Suc (Suc (length idx))] arr
           = Inr (map (\<lambda>i. snid ! boundaries_upto idx i) [0..<n])"
proof (induction "Suc (length idx) - k" arbitrary: k arr)
  case 0
  then have k: "k = Suc (length idx)" by simp
  with 0 have "\<forall>i<n. arr ! i = snid ! boundaries_upto idx i" by (simp add: nth_append)
  with 0 have "arr = map (\<lambda>i. snid ! boundaries_upto idx i) [0..<n]"
    by (intro nth_equalityI) auto
  with k show ?case by simp
next
  case (Suc d)
  then have k: "k \<le> length idx" by simp
  let ?b = "0 # idx @ [n]"
  let ?arr = "slice_assign arr (?b ! k) (?b ! Suc k) (snid ! k)"
  from boundaries_mono [OF srt bnd k]
  have mono: "?b ! k \<le> ?b ! Suc k" and top: "?b ! Suc k \<le> n" by simp_all
  have step: "fill_arr_ID ?b snid [Suc k..<Suc (Suc (length idx))] arr
                = fill_arr_ID ?b snid [Suc (Suc k)..<Suc (Suc (length idx))] ?arr"
    using k len by (simp add: upt_conv_Cons iloc_def del: upt_Suc)
  have inv: "\<forall>i < ?b ! Suc k. ?arr ! i = snid ! boundaries_upto idx i"
  proof (intro allI impI)
    fix i assume i: "i < ?b ! Suc k"
    with top have "i < length arr" using Suc.prems(2) by simp
    then have nth: "?arr ! i = (if ?b ! k \<le> i \<and> i < ?b ! Suc k then snid ! k else arr ! i)"
      using mono top Suc.prems(2) by (intro nth_slice_assign) auto
    show "?arr ! i = snid ! boundaries_upto idx i"
    proof (cases "?b ! k \<le> i")
      case True
      with i have "boundaries_upto idx i = k" by (intro boundaries_upto_between [OF srt k])
      with nth True i show ?thesis by simp
    next
      case False
      with nth Suc.prems(3) show ?thesis by simp
    qed
  qed
  have "fill_arr_ID ?b snid [Suc (Suc k)..<Suc (Suc (length idx))] ?arr
          = Inr (map (\<lambda>i. snid ! boundaries_upto idx i) [0..<n])"
    using Suc.hyps(2) k Suc.prems(2) inv by (intro Suc.hyps(1)) auto
  with step show ?case by simp
qed

lemma filter_le_upt: "i < n \<Longrightarrow> filter (\<lambda>j. j \<le> i) [0..<n] = [0..<Suc i]"
proof -
  assume "i < n"
  then have "[0..<n] = [0..<Suc i] @ [Suc i..<n]"
    using upt_add_eq_append [of 0 "Suc i" "n - Suc i"] by simp
  then show ?thesis
    by (simp add: filter_id_conv filter_empty_conv del: upt_Suc)
qed

lemma boundaries_upto_np_where:
  assumes "i < length mjds"
  shows "boundaries_upto (np_where_sentinel mjds) i = count_sentinels (take (Suc i) mjds)"
proof -
  have "filter (\<lambda>j. j \<le> i) (np_where_sentinel mjds)
          = filter (\<lambda>j. mjds ! j = sentinel) (filter (\<lambda>j. j \<le> i) [0..<length mjds])"
    by (simp add: np_where_sentinel_def conj_commute)
  also have "\<dots> = filter (\<lambda>j. mjds ! j = sentinel) [0..<Suc i]"
    using assms by (simp only: filter_le_upt)
  also have "\<dots> = np_where_sentinel (take (Suc i) mjds)"
  proof -
    have "length (take (Suc i) mjds) = Suc i" using assms by simp
    moreover have "\<forall>j\<in>set [0..<Suc i]. take (Suc i) mjds ! j = mjds ! j" by simp
    ultimately show ?thesis
      unfolding np_where_sentinel_def by (metis (mono_tags, lifting) filter_cong)
  qed
  finally show ?thesis
    by (simp add: boundaries_upto_def length_np_where)
qed

text \<open>What lines 42--51 compute, and when they raise.\<close>

lemma assign_ids_eq:
  "assign_ids mjds snid =
     (if count_sentinels mjds < length snid then Inr (block_ids mjds snid) else Inl IndexError)"
proof (cases "count_sentinels mjds < length snid")
  case True
  let ?idx = "np_where_sentinel mjds"
  have "fill_arr_ID (0 # ?idx @ [length mjds]) snid [Suc 0..<Suc (Suc (length ?idx))]
          (replicate (length mjds) 0)
        = Inr (map (\<lambda>i. snid ! boundaries_upto ?idx i) [0..<length mjds])"
    using True
    by (intro fill_arr_ID_inv sorted_np_where) (auto simp: np_where_bound length_np_where)
  moreover have "map (\<lambda>i. snid ! boundaries_upto ?idx i) [0..<length mjds] = block_ids mjds snid"
    by (simp add: block_ids_def boundaries_upto_np_where)
  ultimately show ?thesis using True by (simp add: assign_ids_def)
next
  case False
  then have "\<exists>c\<in>set [1..<length ([0] @ np_where_sentinel mjds @ [length mjds])].
               \<not> c - 1 < length snid"
    by (intro bexI [of _ "Suc (count_sentinels mjds)"]) (auto simp: length_np_where)
  then show ?thesis using False
    by (simp only: assign_ids_def Let_def fill_arr_ID_error if_False)
qed

lemma length_block_ids: "length (block_ids mjds snid) = length mjds"
  by (simp add: block_ids_def)

lemma count_sentinels_simps:
  "count_sentinels [] = 0"
  "count_sentinels (t # ts) =
     (if t = sentinel then Suc (count_sentinels ts) else count_sentinels ts)"
  by (simp_all add: count_sentinels_def)

lemma count_sentinels_take_Suc:
  "i < length mjds \<Longrightarrow> count_sentinels (take (Suc i) mjds) =
     (if mjds ! i = sentinel then Suc (count_sentinels (take i mjds))
      else count_sentinels (take i mjds))"
  by (simp add: take_Suc_conv_app_nth count_sentinels_def)

section \<open>read\_fits on a loaded batch\<close>

lemma trim_sentinels_nonempty: "trim_sentinels df_phot = Inr df_trimmed \<Longrightarrow> df_phot \<noteq> []"
  by (auto simp: trim_sentinels_def)

lemma read_fits_loaded:
  assumes "files w fname = Some (FitsPhot df_phot)"
      and "trim_sentinels df_phot = Inr df_trimmed"
      and "files w (py_replace ''PHOT'' ''HEAD'' fname) = Some (FitsHead df_header)"
  shows "fst (read_fits w fname drop_separators) =
           (if count_sentinels (map MJD df_trimmed) < length df_header
            then Inr (normalise_header df_header,
                      normalise_phot drop_separators
                        (block_ids (map MJD df_trimmed)
                           (map (\<lambda>h. astype_int32 (SNID h)) df_header)) df_trimmed)
            else Inl IndexError)"
proof -
  from assms(2) have "df_phot \<noteq> []" by (rule trim_sentinels_nonempty)
  with assms show ?thesis
    by (simp add: read_fits_def read_header_and_join_def Table_read_def assign_ids_eq)
qed

section \<open>Facts about the sample inputs\<close>

lemma sample_files:
  "files (sample_world phot hdr) ''in/b_PHOT.FITS.gz'' = Some (FitsPhot phot)"
  "files (sample_world phot hdr) ''in/b_HEAD.FITS.gz'' = Some (FitsHead hdr)"
  "py_replace ''PHOT'' ''HEAD'' ''in/b_PHOT.FITS.gz'' = ''in/b_HEAD.FITS.gz''"
  by (simp_all add: sample_world_def)

lemma sample_header_file:
  "files (sample_world phot hdr) (py_replace ''PHOT'' ''HEAD'' ''in/b_PHOT.FITS.gz'')
     = Some (FitsHead hdr)"
  by (simp only: sample_files)

lemma converted_paths:
  "csv_metadata_path ''out'' (os_path_join ''in'' ''b_PHOT.FITS.gz'') = ''out/b_HEAD.csv''"
  "os_path_join ''in'' ''b_PHOT.FITS.gz'' = ''in/b_PHOT.FITS.gz''"
  by (simp_all add: csv_metadata_path_def os_path_join_def os_path_basename_def)

text \<open>A row with an unknown band code is filtered out; the others keep their order.\<close>

lemma unknown_band_batch:
  "fst (read_fits (sample_world [mk_phot 1 ''u '', mk_phot 2 ''X ''] [mk_head 10])
          ''in/b_PHOT.FITS.gz'' False)
     = Inr (normalise_header [mk_head 10], [mk_out 10 1 0])"
proof -
  have trim: "trim_sentinels [mk_phot 1 ''u '', mk_phot 2 ''X '']
                = Inr [mk_phot 1 ''u '', mk_phot 2 ''X '']"
    by (simp add: trim_sentinels_def mk_phot_def sentinel_def)
  show ?thesis
    unfolding read_fits_loaded [OF sample_files(1) trim sample_header_file]
    by (simp add: normalise_phot_def isin_passband_def replace_passband_def passband_dict_def
        count_sentinels_simps block_ids_def upt_rec [of 0] mk_phot_def mk_head_def mk_out_def
        sentinel_def astype_int32_def)
qed

section \<open>Facts used by several claims\<close>

lemma driver_body_skip:
  "os_path_exists w (csv_metadata_path output_dir path) \<Longrightarrow>
   driver_body output_dir path w = (Inr (), w)"
  by (simp add: driver_body_def)

lemma driver_loop_skip:
  "\<forall>p\<in>set paths. os_path_exists w (csv_metadata_path output_dir p) \<Longrightarrow>
   driver_loop output_dir paths w = (Inr (), w)"
  by (induction paths) (simp_all add: driver_body_skip)

lemma passband_dict_codes:
  "map_of passband_dict b = Some v \<Longrightarrow>
     v \<in> {0, 1, 2, 3, 4, 5} \<and> b \<in> {''u '', ''g '', ''r '', ''i '', ''z '', ''Y ''}"
  by (auto simp: passband_dict_def split: if_splits)

text \<open>Every row of the normalised photometry comes from an input row with a known band.\<close>

lemma normalise_phot_rows:
  assumes "r \<in> set (normalise_phot drop_separators arr_ID df)"
  shows "\<exists>raw v. raw \<in> set df \<and> map_of passband_dict (FLT raw) = Some v
           \<and> passband r = Code v \<and> mjd r = MJD raw"
proof -
  from assms obtain i raw where in_zip: "(i, raw) \<in> set (zip arr_ID df)"
    and known: "isin_passband (Raw (FLT raw))"
    and r: "r = \<lparr>object_id = i, mjd = MJD raw, passband = replace_passband (Raw (FLT raw)),
                 flux = FLUXCAL raw, flux_err = FLUXCALERR raw\<rparr>"
    by (auto simp: normalise_phot_def Let_def split: if_splits)
  from known have "map_of passband_dict (FLT raw) \<noteq> None"
    by (simp add: isin_passband_def map_of_eq_None_iff)
  then obtain v where v: "map_of passband_dict (FLT raw) = Some v" by auto
  from in_zip have "raw \<in> set df" by (rule set_zip_rightD)
  with v r show ?thesis by (auto simp: replace_passband_def)
qed

lemma trim_sentinels_subset: "trim_sentinels df = Inr tr \<Longrightarrow> set tr \<subseteq> set df"
  by (auto simp: trim_sentinels_def Let_def split: if_splits
      dest: in_set_butlastD list.set_sel(2))

text \<open>A non-empty batch that survives trimming makes read\_fits open exactly two paths.\<close>

lemma read_fits_reads:
  assumes "files w fname = Some (FitsPhot df_phot)" and "trim_sentinels df_phot = Inr df_trimmed"
  shows "reads (snd (read_fits w fname drop_separators))
           = reads w @ [fname, py_replace ''PHOT'' ''HEAD'' fname]"
proof -
  from assms(2) have "df_phot \<noteq> []" by (rule trim_sentinels_nonempty)
  with assms show ?thesis
    by (auto simp: read_fits_def read_header_and_join_def Table_read_def Let_def
        split: option.splits content.splits sum.splits)
qed

section \<open>Claims\<close>

subsection \<open>C1: the two-block scenario\<close>

text \<open>
  Claim C1. The photometry file holds the five rows \<open>[s1, r1, r2, s2, r3]\<close>, where
  \<open>s1\<close> and \<open>s2\<close> are separator rows with the sentinel timestamp and \<open>r1\<close>, \<open>r2\<close>,
  \<open>r3\<close> are observations at times other than the sentinel, in the bands \<open>u\<close>, \<open>g\<close>,
  \<open>r\<close>; the header file holds two rows with keys \<open>A\<close> and \<open>B\<close>. With the default flag
  read\_fits returns exactly three photometry rows: those of \<open>r1\<close> and \<open>r2\<close> with
  \<open>object_id\<close> the (32-bit) key \<open>A\<close>, and that of \<open>r3\<close> with \<open>object_id\<close> the key
  \<open>B\<close>; no sentinel row is among them. A separator row carries no band code of the
  vocabulary: the leading one is removed by the trimming, the interior one by the band
  filter of lines 63--66.
\<close>

theorem read_fits_two_block_scenario:
  assumes "files w fname = Some (FitsPhot [s1, r1, r2, s2, r3])"
      and "files w (py_replace ''PHOT'' ''HEAD'' fname) = Some (FitsHead [hA, hB])"
      and "MJD s1 = sentinel" "MJD s2 = sentinel"
      and "MJD r1 \<noteq> sentinel" "MJD r2 \<noteq> sentinel" "MJD r3 \<noteq> sentinel"
      and "FLT r1 = ''u ''" "FLT r2 = ''g ''" "FLT r3 = ''r ''"
      and "FLT s2 \<notin> set (map fst passband_dict)"
  shows "fst (read_fits w fname False) =
     Inr (normalise_header [hA, hB],
       [\<lparr>object_id = astype_int32 (SNID hA), mjd = MJD r1, passband = Code 0,
          flux = FLUXCAL r1, flux_err = FLUXCALERR r1\<rparr>,
        \<lparr>object_id = astype_int32 (SNID hA), mjd = MJD r2, passband = Code 1,
          flux = FLUXCAL r2, flux_err = FLUXCALERR r2\<rparr>,
        \<lparr>object_id = astype_int32 (SNID hB), mjd = MJD r3, passband = Code 2,
          flux = FLUXCAL r3, flux_err = FLUXCALERR r3\<rparr>])"
proof -
  have trim: "trim_sentinels [s1, r1, r2, s2, r3] = Inr [r1, r2, s2, r3]"
    using assms(3,7) by (simp add: trim_sentinels_def)
  have ids: "block_ids (map MJD [r1, r2, s2, r3]) (map (\<lambda>h. astype_int32 (SNID h)) [hA, hB])
      = [astype_int32 (SNID hA), astype_int32 (SNID hA),
         astype_int32 (SNID hB), astype_int32 (SNID hB)]"
    using assms(4-7) by (simp add: block_ids_def count_sentinels_simps upt_rec [of 0])
  show ?thesis
    unfolding read_fits_loaded [OF assms(1) trim assms(2)] ids
    using assms(4-11)
    by (simp add: normalise_phot_def isin_passband_def replace_passband_def passband_dict_def
        count_sentinels_simps)
qed

text \<open>The scenario with keys 10 and 20, times 1, 2, 3 and separator band \<open>-\<close>.\<close>

theorem read_fits_two_block_scenario_witness:
  "fst (read_fits
          (sample_world [mk_phot (- 777) ''- '', mk_phot 1 ''u '', mk_phot 2 ''g '',
                         mk_phot (- 777) ''- '', mk_phot 3 ''r '']
                        [mk_head 10, mk_head 20])
          ''in/b_PHOT.FITS.gz'' False)
     = Inr (normalise_header [mk_head 10, mk_head 20],
            [mk_out 10 1 0, mk_out 10 2 1, mk_out 20 3 2])"
  using read_fits_two_block_scenario
    [of "sample_world [mk_phot (- 777) ''- '', mk_phot 1 ''u '', mk_phot 2 ''g '',
                       mk_phot (- 777) ''- '', mk_phot 3 ''r '']
                      [mk_head 10, mk_head 20]" "''in/b_PHOT.FITS.gz''"
        "mk_phot (- 777) ''- ''" "mk_phot 1 ''u ''" "mk_phot 2 ''g ''"
        "mk_phot (- 777) ''- ''" "mk_phot 3 ''r ''" "mk_head 10" "mk_head 20"]
  by (simp add: sample_files mk_phot_def mk_head_def mk_out_def sentinel_def passband_dict_def
      astype_int32_def)

subsection \<open>C2: sentinel count against header count\<close>

text \<open>
  Claim C2, as amended. Take a batch whose photometry file is non-empty and survives
  trimming, and whose number of remaining sentinel rows differs from the number of header
  rows minus one. If there are fewer sentinel rows than that, read\_fits returns normally:
  the loop yields one key for every trimmed row and nothing reports the mismatch. If
  there are more, the header lookup of line 50 runs past the last header row and
  read\_fits raises \<open>IndexError\<close>.
\<close>

theorem read_fits_sentinel_header_mismatch:
  assumes "files w fname = Some (FitsPhot df_phot)"
      and "trim_sentinels df_phot = Inr df_trimmed"
      and "files w (py_replace ''PHOT'' ''HEAD'' fname) = Some (FitsHead df_header)"
      and "int (count_sentinels (map MJD df_trimmed)) \<noteq> int (length df_header) - 1"
  shows "(int (count_sentinels (map MJD df_trimmed)) < int (length df_header) - 1 \<longrightarrow>
            (\<exists>arr_ID. assign_ids (map MJD df_trimmed)
                          (map (\<lambda>h. astype_int32 (SNID h)) df_header) = Inr arr_ID
                   \<and> length arr_ID = length df_trimmed
                   \<and> fst (read_fits w fname drop_separators)
                       = Inr (normalise_header df_header,
                              normalise_phot drop_separators arr_ID df_trimmed)))
       \<and> (int (length df_header) - 1 < int (count_sentinels (map MJD df_trimmed)) \<longrightarrow>
            fst (read_fits w fname drop_separators) = Inl IndexError)"
  using read_fits_loaded [OF assms(1-3), of drop_separators]
  by (auto simp: assign_ids_eq length_block_ids)

text \<open>
  Two header rows and no sentinel: both rows silently get the first key. One header row
  and one interior sentinel: \<open>IndexError\<close>.
\<close>

theorem read_fits_sentinel_header_mismatch_witness:
  "fst (read_fits (sample_world [mk_phot 1 ''u '', mk_phot 2 ''g ''] [mk_head 10, mk_head 20])
          ''in/b_PHOT.FITS.gz'' False)
     = Inr (normalise_header [mk_head 10, mk_head 20], [mk_out 10 1 0, mk_out 10 2 1])
   \<and> fst (read_fits
            (sample_world [mk_phot 1 ''u '', mk_phot (- 777) ''- '', mk_phot 2 ''g ''] [mk_head 10])
            ''in/b_PHOT.FITS.gz'' False)
       = Inl IndexError"
proof -
  let ?two = "[mk_phot 1 ''u '', mk_phot 2 ''g '']"
  let ?three = "[mk_phot 1 ''u '', mk_phot (- 777) ''- '', mk_phot 2 ''g '']"
  have trim2: "trim_sentinels ?two = Inr ?two"
    by (simp add: trim_sentinels_def mk_phot_def sentinel_def)
  have ids: "assign_ids (map MJD ?two)
               (map (\<lambda>h. astype_int32 (SNID h)) [mk_head 10, mk_head 20]) = Inr [10, 10]"
    by (simp add: assign_ids_eq block_ids_def count_sentinels_simps upt_rec [of 0] mk_phot_def
        mk_head_def sentinel_def astype_int32_def)
  have mismatch2: "int (count_sentinels (map MJD ?two)) \<noteq> int (length [mk_head 10, mk_head 20]) - 1"
    by (simp add: count_sentinels_simps mk_phot_def sentinel_def)
  have fewer: "int (count_sentinels (map MJD ?two)) < int (length [mk_head 10, mk_head 20]) - 1"
    by (simp add: count_sentinels_simps mk_phot_def sentinel_def)
  from read_fits_sentinel_header_mismatch
         [OF sample_files(1) trim2 sample_header_file mismatch2, of False] fewer
  have "fst (read_fits (sample_world ?two [mk_head 10, mk_head 20]) ''in/b_PHOT.FITS.gz'' False)
     = Inr (normalise_header [mk_head 10, mk_head 20], normalise_phot False [10, 10] ?two)"
    unfolding ids by blast
  then have first: "fst (read_fits (sample_world ?two [mk_head 10, mk_head 20])
                           ''in/b_PHOT.FITS.gz'' False)
     = Inr (normalise_header [mk_head 10, mk_head 20], [mk_out 10 1 0, mk_out 10 2 1])"
    by (simp add: normalise_phot_def isin_passband_def replace_passband_def passband_dict_def
        mk_phot_def mk_out_def)
  have trim3: "trim_sentinels ?three = Inr ?three"
    by (simp add: trim_sentinels_def mk_phot_def sentinel_def)
  have mismatch3: "int (count_sentinels (map MJD ?three)) \<noteq> int (length [mk_head 10]) - 1"
    by (simp add: count_sentinels_simps mk_phot_def sentinel_def)
  have more: "int (length [mk_head 10]) - 1 < int (count_sentinels (map MJD ?three))"
    by (simp add: count_sentinels_simps mk_phot_def sentinel_def)
  from read_fits_sentinel_header_mismatch
         [OF sample_files(1) trim3 sample_header_file mismatch3, of False] more
  have "fst (read_fits (sample_world ?three [mk_head 10]) ''in/b_PHOT.FITS.gz'' False)
          = Inl IndexError"
    by blast
  with first show ?thesis by simp
qed

text \<open>
  The claim as stated fails on a batch with one header row and one interior sentinel:
  trimming leaves the three rows as they are, the sentinel count 1 differs from
  \<open>1 - 1\<close>, and read\_fits raises \<open>IndexError\<close>.
\<close>

theorem read_fits_extra_sentinel_raises:
  "trim_sentinels [mk_phot 1 ''u '', mk_phot (- 777) ''- '', mk_phot 2 ''g '']
     = Inr [mk_phot 1 ''u '', mk_phot (- 777) ''- '', mk_phot 2 ''g '']
   \<and> int (count_sentinels (map MJD [mk_phot 1 ''u '', mk_phot (- 777) ''- '', mk_phot 2 ''g '']))
       \<noteq> int (length [mk_head 10]) - 1
   \<and> fst (read_fits
            (sample_world [mk_phot 1 ''u '', mk_phot (- 777) ''- '', mk_phot 2 ''g ''] [mk_head 10])
            ''in/b_PHOT.FITS.gz'' False)
       = Inl IndexError"
proof -
  have trim: "trim_sentinels [mk_phot 1 ''u '', mk_phot (- 777) ''- '', mk_phot 2 ''g '']
     = Inr [mk_phot 1 ''u '', mk_phot (- 777) ''- '', mk_phot 2 ''g '']"
    by (simp add: trim_sentinels_def mk_phot_def sentinel_def)
  show ?thesis
    unfolding read_fits_loaded [OF sample_files(1) trim sample_header_file] trim
    by (simp add: count_sentinels_simps mk_phot_def sentinel_def)
qed

subsection \<open>C3: trimming\<close>

text \<open>
  Claim C3. When a photometry table has at least two rows and both its first and its
  last row carry the sentinel timestamp, the trimming of lines 31--34 removes exactly
  those two rows: what is left is the table without its first and last row, whatever
  the rows at the new ends are.
\<close>

theorem trim_sentinels_both_ends:
  assumes "2 \<le> length df_phot"
      and "MJD (hd df_phot) = sentinel" and "MJD (last df_phot) = sentinel"
  shows "trim_sentinels df_phot = Inr (butlast (tl df_phot))
       \<and> df_phot = hd df_phot # butlast (tl df_phot) @ [last df_phot]"
proof -
  from assms(1) obtain a rest where a: "df_phot = a # rest" and "rest \<noteq> []"
    by (cases df_phot) (auto simp: Suc_le_eq)
  then obtain mid b where b: "rest = mid @ [b]" by (metis rev_exhaust)
  from a b assms(2,3) have "MJD a = sentinel" "MJD b = sentinel" by simp_all
  then have "trim_sentinels (a # mid @ [b]) = Inr mid"
    by (cases mid) (simp_all add: trim_sentinels_def butlast_append)
  with a b show ?thesis by simp
qed

theorem trim_sentinels_both_ends_witness:
  "trim_sentinels [mk_phot (- 777) ''- '', mk_phot (- 777) ''- '', mk_phot 5 ''u '',
                   mk_phot (- 777) ''- '', mk_phot (- 777) ''- '']
     = Inr [mk_phot (- 777) ''- '', mk_phot 5 ''u '', mk_phot (- 777) ''- '']"
  using trim_sentinels_both_ends
    [of "[mk_phot (- 777) ''- '', mk_phot (- 777) ''- '', mk_phot 5 ''u '',
          mk_phot (- 777) ''- '', mk_phot (- 777) ''- '']"]
  by (simp add: mk_phot_def sentinel_def)

subsection \<open>C4: skipping converted batches\<close>

text \<open>
  Claim C4. When the header CSV path computed for an input path already exists, the loop
  body returns at once: the file system is unchanged and no table has been read. Hence,
  when the output directory exists and the header CSV of every discovered file exists, a
  whole run of the driver succeeds and leaves the world (files and read log) as it was.
\<close>

theorem driver_skips_converted_batches:
  "(os_path_exists w (csv_metadata_path output_dir path) \<longrightarrow>
      driver_body output_dir path w = (Inr (), w))
   \<and> (listing w fits_dir = Some names \<and> os_path_exists w output_dir
        \<and> (\<forall>n\<in>set names. py_in ''PHOT.FITS'' n \<longrightarrow>
              os_path_exists w (csv_metadata_path output_dir (os_path_join fits_dir n)))
       \<longrightarrow> driver fits_dir output_dir w = (Inr (), w))"
  by (auto simp: driver_def driver_body_skip driver_loop_skip)

theorem driver_skips_converted_batches_witness:
  "driver_body ''out'' ''in/b_PHOT.FITS.gz'' converted_world = (Inr (), converted_world)
   \<and> driver ''in'' ''out'' converted_world = (Inr (), converted_world)"
proof -
  have ex: "os_path_exists converted_world (csv_metadata_path ''out'' ''in/b_PHOT.FITS.gz'')"
    using converted_paths by (simp add: os_path_exists_def converted_world_def)
  have all: "listing converted_world ''in'' = Some [''b_PHOT.FITS.gz'', ''b_HEAD.FITS.gz'']
      \<and> os_path_exists converted_world ''out''
      \<and> (\<forall>n\<in>set [''b_PHOT.FITS.gz'', ''b_HEAD.FITS.gz'']. py_in ''PHOT.FITS'' n \<longrightarrow>
              os_path_exists converted_world (csv_metadata_path ''out'' (os_path_join ''in'' n)))"
    using ex by (simp add: converted_paths) (simp add: os_path_exists_def converted_world_def)
  from driver_skips_converted_batches
         [of converted_world "''out''" "''in/b_PHOT.FITS.gz''" "''in''"
             "[''b_PHOT.FITS.gz'', ''b_HEAD.FITS.gz'']"] ex all
  show ?thesis by blast
qed

subsection \<open>C5: empty photometry\<close>

text \<open>
  Claim C5. When the photometry file has no rows, read\_fits returns two empty tables
  without raising, and the loop body of the driver finishes without error and leaves every
  file as it was: neither CSV is written.
\<close>

theorem empty_photometry_writes_nothing:
  assumes "files w path = Some (FitsPhot [])"
  shows "fst (read_fits w path drop_separators) = Inr ([], [])
       \<and> fst (driver_body output_dir path w) = Inr ()
       \<and> files (snd (driver_body output_dir path w)) = files w"
  using assms by (simp add: driver_body_def read_fits_def Table_read_def)

theorem empty_photometry_writes_nothing_witness:
  "fst (read_fits (sample_world [] [mk_head 10]) ''in/b_PHOT.FITS.gz'' False) = Inr ([], [])
   \<and> fst (driver_body ''out'' ''in/b_PHOT.FITS.gz'' (sample_world [] [mk_head 10])) = Inr ()
   \<and> files (snd (driver_body ''out'' ''in/b_PHOT.FITS.gz'' (sample_world [] [mk_head 10])))
       = files (sample_world [] [mk_head 10])"
  using empty_photometry_writes_nothing [OF sample_files(1) [of "[]" "[mk_head 10]"]] by blast

subsection \<open>C6: passband codes\<close>

text \<open>
  Claim C6. Every row of the photometry table that read\_fits returns stems from a row of
  the photometry file whose band is one of the six codes \<open>u, g, r, i, z, Y\<close> (two bytes,
  blank padded), and its \<open>passband\<close> is the integer that the dictionary gives for that
  code, one of 0 to 5; no raw code is left in the column.
\<close>

theorem read_fits_passband_codes:
  assumes "fst (read_fits w fname drop_separators) = Inr (df_header, df_phot)"
      and "r \<in> set df_phot"
  shows "\<exists>rows raw v. files w fname = Some (FitsPhot rows) \<and> raw \<in> set rows
           \<and> mjd r = MJD raw \<and> map_of passband_dict (FLT raw) = Some v
           \<and> passband r = Code v \<and> v \<in> {0, 1, 2, 3, 4, 5}
           \<and> FLT raw \<in> {''u '', ''g '', ''r '', ''i '', ''z '', ''Y ''}"
proof -
  from assms obtain rows tr arr_ID where rows: "files w fname = Some (FitsPhot rows)"
    and tr: "trim_sentinels rows = Inr tr"
    and p: "df_phot = normalise_phot drop_separators arr_ID tr"
    by (auto simp: read_fits_def read_header_and_join_def Table_read_def Let_def
        split: option.splits content.splits sum.splits if_splits prod.splits)
  from normalise_phot_rows [OF assms(2) [unfolded p]] obtain raw v where
    raw: "raw \<in> set tr" "map_of passband_dict (FLT raw) = Some v" "passband r = Code v"
         "mjd r = MJD raw" by blast
  from raw(1) trim_sentinels_subset [OF tr] have "raw \<in> set rows" by blast
  with rows raw passband_dict_codes [OF raw(2)] show ?thesis by blast
qed

theorem read_fits_passband_codes_witness:
  "\<exists>rows raw v.
      files (sample_world [mk_phot 1 ''u '', mk_phot 2 ''X ''] [mk_head 10]) ''in/b_PHOT.FITS.gz''
        = Some (FitsPhot rows)
      \<and> raw \<in> set rows \<and> mjd (mk_out 10 1 0) = MJD raw
      \<and> map_of passband_dict (FLT raw) = Some v
      \<and> passband (mk_out 10 1 0) = Code v \<and> v \<in> {0, 1, 2, 3, 4, 5}
      \<and> FLT raw \<in> {''u '', ''g '', ''r '', ''i '', ''z '', ''Y ''}"
  by (rule read_fits_passband_codes [OF unknown_band_batch]) simp

subsection \<open>C7: output file names\<close>

text \<open>
  Claim C7 says that a discovered file named \<open>batch_PHOT.FITS\<close> or
  \<open>batch_PHOT.FITS.gz\<close> gets the output names \<open>batch_HEAD.csv\<close> and
  \<open>batch_PHOT.csv\<close>. The script does not do this for the uncompressed name: line 92
  discovers \<open>b_PHOT.FITS\<close>, but the substitutions of lines 97--98 look for
  \<open>PHOT.FITS.gz\<close> and \<open>.FITS.gz\<close> and leave the name as it is, so both output paths
  are \<open>out/b_PHOT.FITS\<close>.
\<close>

theorem driver_output_names_uncompressed:
  "py_in ''PHOT.FITS'' ''b_PHOT.FITS''
   \<and> csv_metadata_path ''out'' (os_path_join ''in'' ''b_PHOT.FITS'') = ''out/b_PHOT.FITS''
   \<and> csv_lcdata_path ''out'' (os_path_join ''in'' ''b_PHOT.FITS'') = ''out/b_PHOT.FITS''"
  by (simp add: csv_metadata_path_def csv_lcdata_path_def os_path_join_def os_path_basename_def)

text \<open>Hence the two CSV files of an uncompressed batch share one path.\<close>

theorem driver_output_names_uncompressed_witness:
  "csv_metadata_path ''out'' (os_path_join ''in'' ''b_PHOT.FITS'')
     = csv_lcdata_path ''out'' (os_path_join ''in'' ''b_PHOT.FITS'')"
  using driver_output_names_uncompressed by simp

text \<open>
  The compressed names are handled as the claim says: for an entry \<open>batch_PHOT.FITS.gz\<close>,
  where \<open>batch\<close> contains no further \<open>.FITS.gz\<close>, the two output paths are
  \<open>batch_HEAD.csv\<close> and \<open>batch_PHOT.csv\<close> joined to the output directory. (An entry
  name never contains a slash.)
\<close>

lemma driver_output_names_gz:
  assumes "CHR ''/'' \<notin> set batch" and "\<not> py_in ''.FITS.gz'' batch"
  shows "py_in ''PHOT.FITS'' (batch @ ''_PHOT.FITS.gz'')
       \<and> csv_metadata_path output_dir (os_path_join fits_dir (batch @ ''_PHOT.FITS.gz''))
           = os_path_join output_dir (batch @ ''_HEAD.csv'')
       \<and> csv_lcdata_path output_dir (os_path_join fits_dir (batch @ ''_PHOT.FITS.gz''))
           = os_path_join output_dir (batch @ ''_PHOT.csv'')"
proof -
  have base: "os_path_basename (os_path_join fits_dir (batch @ ''_PHOT.FITS.gz''))
                = batch @ ''_PHOT.FITS.gz''"
    using assms(1) by (intro basename_join) simp
  have "py_in ''PHOT.FITS'' (batch @ ''_'' @ ''PHOT.FITS'' @ ''.gz'')"
    unfolding py_in_iff by (metis append.assoc)
  then have found: "py_in ''PHOT.FITS'' (batch @ ''_PHOT.FITS.gz'')" by simp
  have "\<not> py_in (''PHOT'' @ ''.FITS.gz'') batch"
    using assms(2) py_in_suffix_pattern by blast
  then have no_long: "\<not> py_in ''PHOT.FITS.gz'' batch" by simp
  have "py_replace ''PHOT.FITS.gz'' ''HEAD.csv'' (batch @ CHR ''_'' # ''PHOT.FITS.gz'')
          = py_replace ''PHOT.FITS.gz'' ''HEAD.csv'' batch
              @ CHR ''_'' # py_replace ''PHOT.FITS.gz'' ''HEAD.csv'' ''PHOT.FITS.gz''"
    by (rule py_replace_split) simp_all
  then have meta: "py_replace ''PHOT.FITS.gz'' ''HEAD.csv'' (batch @ ''_PHOT.FITS.gz'')
                     = batch @ ''_HEAD.csv''"
    using no_long by (simp add: py_replace_absent)
  have "py_replace ''.FITS.gz'' ''.csv'' (batch @ CHR ''_'' # ''PHOT.FITS.gz'')
          = py_replace ''.FITS.gz'' ''.csv'' batch
              @ CHR ''_'' # py_replace ''.FITS.gz'' ''.csv'' ''PHOT.FITS.gz''"
    by (rule py_replace_split) simp_all
  then have lc: "py_replace ''.FITS.gz'' ''.csv'' (batch @ ''_PHOT.FITS.gz'') = batch @ ''_PHOT.csv''"
    using assms(2) by (simp add: py_replace_absent)
  show ?thesis
    using found by (simp only: csv_metadata_path_def csv_lcdata_path_def base meta lc simp_thms)
qed

lemma driver_output_names_gz_sample:
  "py_in ''PHOT.FITS'' ''b_PHOT.FITS.gz''
   \<and> csv_metadata_path ''out'' (os_path_join ''in'' ''b_PHOT.FITS.gz'') = ''out/b_HEAD.csv''
   \<and> csv_lcdata_path ''out'' (os_path_join ''in'' ''b_PHOT.FITS.gz'') = ''out/b_PHOT.csv''"
  using driver_output_names_gz [of "''b''" "''out''" "''in''"] by (simp add: os_path_join_def)

text \<open>
  What the shared path does to a run: on an uncompressed batch with one observation and
  one header row the driver ends without error, the photometry CSV has replaced the
  header CSV at \<open>out/b_PHOT.FITS\<close>, and neither \<open>out/b_HEAD.csv\<close> nor
  \<open>out/b_PHOT.csv\<close> exists.
\<close>

lemma uncompressed_batch_read:
  "read_fits uncompressed_world ''in/b_PHOT.FITS'' False
     = (Inr (normalise_header [mk_head 10], [mk_out 10 1 0]),
        uncompressed_world\<lparr>reads := [''in/b_PHOT.FITS'', ''in/b_HEAD.FITS'']\<rparr>)"
  by (simp add: read_fits_def read_header_and_join_def Table_read_def trim_sentinels_def
      assign_ids_eq block_ids_def count_sentinels_simps uncompressed_world_def mk_phot_def
      mk_head_def mk_out_def sentinel_def astype_int32_def normalise_phot_def isin_passband_def
      replace_passband_def passband_dict_def)

lemma driver_uncompressed_overwrites_header_csv:
  "fst (driver ''in'' ''out'' uncompressed_world) = Inr ()
   \<and> files (snd (driver ''in'' ''out'' uncompressed_world)) ''out/b_PHOT.FITS''
       = Some (CsvPhot [mk_out 10 1 0])
   \<and> files (snd (driver ''in'' ''out'' uncompressed_world)) ''out/b_HEAD.csv'' = None
   \<and> files (snd (driver ''in'' ''out'' uncompressed_world)) ''out/b_PHOT.csv'' = None"
proof -
  have paths: "csv_metadata_path ''out'' ''in/b_PHOT.FITS'' = ''out/b_PHOT.FITS''"
    "csv_lcdata_path ''out'' ''in/b_PHOT.FITS'' = ''out/b_PHOT.FITS''"
    "path_parent ''out/b_PHOT.FITS'' = ''out''"
    by (simp_all add: csv_metadata_path_def csv_lcdata_path_def os_path_join_def
        os_path_basename_def path_parent_def)
  have hdr: "normalise_header [mk_head 10] \<noteq> []" by (simp add: normalise_header_def)
  have body: "driver_body ''out'' ''in/b_PHOT.FITS'' uncompressed_world
     = (Inr (), uncompressed_world
          \<lparr>reads := [''in/b_PHOT.FITS'', ''in/b_HEAD.FITS''],
           files := (files uncompressed_world)
                      (''out/b_PHOT.FITS'' \<mapsto> CsvPhot [mk_out 10 1 0])\<rparr>)"
    unfolding driver_body_def paths uncompressed_batch_read
    using hdr by (simp add: to_csv_def paths is_dir_def os_path_exists_def uncompressed_world_def)
  have "driver ''in'' ''out'' uncompressed_world
          = driver_loop ''out'' [''in/b_PHOT.FITS''] uncompressed_world"
    by (simp add: driver_def os_path_exists_def os_path_join_def uncompressed_world_def)
  then show ?thesis
    by (simp add: body) (simp add: uncompressed_world_def)
qed

subsection \<open>C8: a lone sentinel row\<close>

text \<open>
  Claim C8. When the photometry file holds exactly one row and that row carries the
  sentinel timestamp, read\_fits raises \<open>IndexError\<close>: the first test drops the row, the
  second reads position 0 of an empty array. Only the photometry file has been opened.
\<close>

theorem read_fits_lone_sentinel_raises:
  assumes "files w fname = Some (FitsPhot [r])" and "MJD r = sentinel"
  shows "read_fits w fname drop_separators = (Inl IndexError, w\<lparr>reads := reads w @ [fname]\<rparr>)"
  using assms by (simp add: read_fits_def Table_read_def trim_sentinels_def)

theorem read_fits_lone_sentinel_raises_witness:
  "read_fits (sample_world [mk_phot (- 777) ''- ''] [mk_head 10]) ''in/b_PHOT.FITS.gz'' False
     = (Inl IndexError,
        (sample_world [mk_phot (- 777) ''- ''] [mk_head 10])\<lparr>reads := [''in/b_PHOT.FITS.gz'']\<rparr>)"
  using read_fits_lone_sentinel_raises
    [of "sample_world [mk_phot (- 777) ''- ''] [mk_head 10]" "''in/b_PHOT.FITS.gz''"
        "mk_phot (- 777) ''- ''" False]
  by (simp add: sample_files) (simp add: sample_world_def mk_phot_def sentinel_def)

subsection \<open>C9: the key given to a sentinel row\<close>

text \<open>
  Claim C9. Let the loop of lines 42--51 run on timestamps with fewer sentinels than
  header keys, and let row \<open>i\<close> be a sentinel with \<open>k\<close> sentinels before it, so that it
  closes block \<open>k + 1\<close> (counting from one). The loop succeeds and gives row \<open>i\<close> the
  key at position \<open>k + 1\<close> (counting from zero), that of the following block, while the
  rows of the block it closes, those before \<open>i\<close> with \<open>k\<close> sentinels up to and
  including themselves, get the key at position \<open>k\<close>.
\<close>

theorem assign_ids_sentinel_gets_next_key:
  assumes "count_sentinels mjds < length snid" and "i < length mjds" and "mjds ! i = sentinel"
      and "count_sentinels (take i mjds) = k"
  shows "\<exists>ids. assign_ids mjds snid = Inr ids \<and> length ids = length mjds
           \<and> ids ! i = snid ! Suc k
           \<and> (\<forall>j<i. count_sentinels (take (Suc j) mjds) = k \<longrightarrow> ids ! j = snid ! k)"
  using assms by (simp add: assign_ids_eq block_ids_def count_sentinels_take_Suc)

theorem assign_ids_sentinel_gets_next_key_witness:
  "\<exists>ids. assign_ids [1, 2, - 777, 3, - 777, 4] [10, 20, 30] = Inr ids \<and> length ids = 6
         \<and> ids ! 2 = 20 \<and> ids ! 0 = 10 \<and> ids ! 1 = 10"
  using assign_ids_sentinel_gets_next_key [of "[1, 2, - 777, 3, - 777, 4]" "[10, 20, 30]" 2 0]
  by (auto simp: count_sentinels_simps sentinel_def numeral_2_eq_2)

subsection \<open>C10: the header path\<close>

text \<open>
  Claim C10. For an input path \<open>dir/name\<close> whose photometry file is non-empty and
  survives trimming, the second file that read\_fits opens is the path obtained by
  replacing \<open>PHOT\<close> by \<open>HEAD\<close> in \<open>dir\<close> as well as in \<open>name\<close>. No occurrence of
  \<open>PHOT\<close> is left in the directory part, so a directory part that contains \<open>PHOT\<close>
  is changed.
\<close>

theorem read_fits_header_path_replaces_in_directory:
  assumes "files w (dir @ ''/'' @ name) = Some (FitsPhot df_phot)"
      and "trim_sentinels df_phot = Inr df_trimmed"
  shows "reads (snd (read_fits w (dir @ ''/'' @ name) drop_separators))
           = reads w @ [dir @ ''/'' @ name,
                        py_replace ''PHOT'' ''HEAD'' dir @ ''/'' @ py_replace ''PHOT'' ''HEAD'' name]
       \<and> \<not> py_in ''PHOT'' (py_replace ''PHOT'' ''HEAD'' dir)
       \<and> (py_in ''PHOT'' dir \<longrightarrow> py_replace ''PHOT'' ''HEAD'' dir \<noteq> dir)"
proof -
  have "py_replace ''PHOT'' ''HEAD'' (dir @ CHR ''/'' # name)
          = py_replace ''PHOT'' ''HEAD'' dir @ CHR ''/'' # py_replace ''PHOT'' ''HEAD'' name"
    by (rule py_replace_split) simp_all
  with read_fits_reads [OF assms, of drop_separators]
  have "reads (snd (read_fits w (dir @ ''/'' @ name) drop_separators))
           = reads w @ [dir @ ''/'' @ name,
                        py_replace ''PHOT'' ''HEAD'' dir @ ''/'' @ py_replace ''PHOT'' ''HEAD'' name]"
    by simp
  moreover have gone: "\<not> py_in ''PHOT'' (py_replace ''PHOT'' ''HEAD'' dir)"
    by (rule py_replace_PHOT_gone)
  moreover from gone have "py_in ''PHOT'' dir \<longrightarrow> py_replace ''PHOT'' ''HEAD'' dir \<noteq> dir"
    by metis
  ultimately show ?thesis by blast
qed

theorem read_fits_header_path_replaces_in_directory_witness:
  "reads (snd (read_fits phot_dir_world ''PHOT_sims/b_PHOT.FITS.gz'' False))
     = [''PHOT_sims/b_PHOT.FITS.gz'', ''HEAD_sims/b_HEAD.FITS.gz'']
   \<and> py_in ''PHOT'' ''PHOT_sims'' \<and> py_replace ''PHOT'' ''HEAD'' ''PHOT_sims'' \<noteq> ''PHOT_sims''"
proof -
  have f: "files phot_dir_world (''PHOT_sims'' @ ''/'' @ ''b_PHOT.FITS.gz'')
             = Some (FitsPhot [mk_phot 1 ''u ''])"
    by (simp add: phot_dir_world_def)
  have trim: "trim_sentinels [mk_phot 1 ''u ''] = Inr [mk_phot 1 ''u '']"
    by (simp add: trim_sentinels_def mk_phot_def sentinel_def)
  have here: "py_in ''PHOT'' ''PHOT_sims''" by simp
  from read_fits_header_path_replaces_in_directory [OF f trim, of False] here show ?thesis
    by (simp add: phot_dir_world_def)
qed

end
